theory Spec2Isabelle
  imports Complex_Main "HOL-Library.AList"
begin

section \<open>JavaScript values and errors\<close>

text \<open>
  The values the TypeScript sources handle at the type \<open>any\<close> / \<open>unknown\<close>: the
  cached value of \<open>TTLCache\<close> and the fields of the records given to
  \<open>convertToTable\<close>. They are the primitive values and (nested) arrays of them, the
  values a table column holds; numbers are reals (no \<open>NaN\<close>, no infinities).
\<close>

datatype jsval =
    JUndefined
  | JNull
  | JBool bool
  | JNum real
  | JStr string
  | JArr "jsval list"

text \<open>Exceptions are values: the constructor is the JavaScript error class.\<close>

datatype error =
    Error string
  | TypeError string
  | RangeError string

section \<open>TTLCache (src/nodejs/lancedb/util.ts)\<close>

text \<open>
  \<open>private readonly cache: Map<string, { value: any; expires: number }>\<close> and
  \<open>private readonly ttl: number\<close>. Times are milliseconds, as \<open>Date.now()\<close>
  returns them; the clock reading is an explicit argument \<open>now\<close> of every
  operation that calls \<open>Date.now()\<close>.
\<close>

record entry =
  entry_value :: jsval
  expires :: int

record TTLCache =
  ttl :: int
  cache :: "string \<rightharpoonup> entry"

definition TTLCache_new :: "int \<Rightarrow> TTLCache" where
  "TTLCache_new t = \<lparr>ttl = t, cache = Map.empty\<rparr>"

text \<open>
  \<open>get(key)\<close>: the result is the returned value (\<open>JUndefined\<close> for
  \<open>undefined\<close>) and the cache after the call.
\<close>

definition TTLCache_get :: "TTLCache \<Rightarrow> int \<Rightarrow> string \<Rightarrow> jsval \<times> TTLCache" where
  "TTLCache_get c now key =
     (case cache c key of
        None \<Rightarrow> (JUndefined, c)
      | Some e \<Rightarrow>
          if expires e < now
          then (JUndefined, c\<lparr>cache := (cache c)(key := None)\<rparr>)
          else (entry_value e, c))"

definition TTLCache_set :: "TTLCache \<Rightarrow> int \<Rightarrow> string \<Rightarrow> jsval \<Rightarrow> TTLCache" where
  "TTLCache_set c now key v =
     c\<lparr>cache := (cache c)(key \<mapsto> \<lparr>entry_value = v, expires = now + ttl c\<rparr>)\<rparr>"

definition TTLCache_delete :: "TTLCache \<Rightarrow> string \<Rightarrow> TTLCache" where
  "TTLCache_delete c key = c\<lparr>cache := (cache c)(key := None)\<rparr>"

text \<open>
  The same class as src/unnamed/part_000 declares it (lines 24 to 58).
\<close>

definition TTLCache_new_part000 :: "int \<Rightarrow> TTLCache" where
  "TTLCache_new_part000 t = \<lparr>ttl = t, cache = Map.empty\<rparr>"

definition TTLCache_get_part000 :: "TTLCache \<Rightarrow> int \<Rightarrow> string \<Rightarrow> jsval \<times> TTLCache" where
  "TTLCache_get_part000 c now key =
     (case cache c key of
        None \<Rightarrow> (JUndefined, c)
      | Some e \<Rightarrow>
          if expires e < now
          then (JUndefined, c\<lparr>cache := (cache c)(key := None)\<rparr>)
          else (entry_value e, c))"

definition TTLCache_set_part000 :: "TTLCache \<Rightarrow> int \<Rightarrow> string \<Rightarrow> jsval \<Rightarrow> TTLCache" where
  "TTLCache_set_part000 c now key v =
     c\<lparr>cache := (cache c)(key \<mapsto> \<lparr>entry_value = v, expires = now + ttl c\<rparr>)\<rparr>"

definition TTLCache_delete_part000 :: "TTLCache \<Rightarrow> string \<Rightarrow> TTLCache" where
  "TTLCache_delete_part000 c key = c\<lparr>cache := (cache c)(key := None)\<rparr>"

text \<open>
  A client of the cache: a sequence of calls, each with the clock reading at which it is
  made. Running the sequence gives the value every call returns (\<open>set\<close> and
  \<open>delete\<close> return \<open>undefined\<close>) and the cache at the end.
\<close>

datatype cache_op = Get string | Set string jsval | Delete string

fun run_util :: "TTLCache \<Rightarrow> (int \<times> cache_op) list \<Rightarrow> jsval list \<times> TTLCache" where
  "run_util c [] = ([], c)"
| "run_util c ((now, Get k) # ops) =
     (let (r, c') = TTLCache_get c now k; (rs, c'') = run_util c' ops in (r # rs, c''))"
| "run_util c ((now, Set k v) # ops) =
     (let c' = TTLCache_set c now k v; (rs, c'') = run_util c' ops in (JUndefined # rs, c''))"
| "run_util c ((now, Delete k) # ops) =
     (let c' = TTLCache_delete c k; (rs, c'') = run_util c' ops in (JUndefined # rs, c''))"

fun run_part000 :: "TTLCache \<Rightarrow> (int \<times> cache_op) list \<Rightarrow> jsval list \<times> TTLCache" where
  "run_part000 c [] = ([], c)"
| "run_part000 c ((now, Get k) # ops) =
     (let (r, c') = TTLCache_get_part000 c now k; (rs, c'') = run_part000 c' ops
      in (r # rs, c''))"
| "run_part000 c ((now, Set k v) # ops) =
     (let c' = TTLCache_set_part000 c now k v; (rs, c'') = run_part000 c' ops
      in (JUndefined # rs, c''))"
| "run_part000 c ((now, Delete k) # ops) =
     (let c' = TTLCache_delete_part000 c k; (rs, c'') = run_part000 c' ops
      in (JUndefined # rs, c''))"

section \<open>toSQL (src/nodejs/lancedb/util.ts and src/unnamed/part_000)\<close>

text \<open>
  \<open>type IntoSql = string | number | boolean | null | Date | IntoSql[]\<close>. A number is
  an IEEE double; \<open>toSQL\<close> only hands it to \<open>Number.prototype.toString\<close>, so the number
  type is a parameter \<open>'n\<close> and its rendering a parameter \<open>numberToString\<close>. A
  \<open>Date\<close> is its time value in milliseconds, or \<open>InvalidDate\<close> when the time value is
  \<open>NaN\<close> (\<open>new Date(NaN)\<close>, \<open>new Date("x")\<close>); \<open>Date.prototype.toISOString\<close> throws
  \<open>RangeError\<close> on an invalid date and formats a valid one (the format is the
  parameter \<open>isoFormat\<close>).
\<close>

datatype jsdate = InvalidDate | TimeValue int

datatype 'n IntoSql =
    SqlString (the_string: string)
  | SqlNumber (the_number: 'n)
  | SqlBoolean (the_boolean: bool)
  | SqlNull
  | SqlDate (the_date: jsdate)
  | SqlArray "'n IntoSql list"

text \<open>The tests the source applies to a value, and the reads that follow them.
  \<open>elements\<close> is the array's element list (read only under \<open>Array.isArray\<close>).\<close>

fun typeof :: "'n IntoSql \<Rightarrow> string" where
  "typeof (SqlString s) = ''string''"
| "typeof (SqlNumber n) = ''number''"
| "typeof (SqlBoolean b) = ''boolean''"
| "typeof SqlNull = ''object''"
| "typeof (SqlDate d) = ''object''"
| "typeof (SqlArray xs) = ''object''"

fun instanceof_Date :: "'n IntoSql \<Rightarrow> bool" where
  "instanceof_Date (SqlDate d) = True"
| "instanceof_Date v = False"

fun isArray :: "'n IntoSql \<Rightarrow> bool" where
  "isArray (SqlArray xs) = True"
| "isArray v = False"

fun elements :: "'n IntoSql \<Rightarrow> 'n IntoSql list" where
  "elements (SqlArray xs) = xs"
| "elements v = []"

definition toISOString :: "(int \<Rightarrow> string) \<Rightarrow> jsdate \<Rightarrow> error + string" where
  "toISOString isofmt d =
     (case d of
        InvalidDate \<Rightarrow> Inl (RangeError ''Invalid time value'')
      | TimeValue t \<Rightarrow> Inr (isofmt t))"

text \<open>\<open>Array.prototype.join\<close> on strings, and \<open>Array.prototype.map\<close> with a callback that
  may throw: the first exception ends the map.\<close>

fun join :: "string \<Rightarrow> string list \<Rightarrow> string" where
  "join sep [] = []"
| "join sep [s] = s"
| "join sep (s # t # ss) = s @ sep @ join sep (t # ss)"

fun mapE :: "('a \<Rightarrow> 'e + 'b) \<Rightarrow> 'a list \<Rightarrow> 'e + 'b list" where
  "mapE f [] = Inr []"
| "mapE f (x # xs) =
     (case f x of
        Inl e \<Rightarrow> Inl e
      | Inr y \<Rightarrow> (case mapE f xs of Inl e \<Rightarrow> Inl e | Inr ys \<Rightarrow> Inr (y # ys)))"

lemma mapE_cong [fundef_cong]:
  "xs = ys \<Longrightarrow> (\<And>x. x \<in> set ys \<Longrightarrow> f x = g x) \<Longrightarrow> mapE f xs = mapE g ys"
  by (induction ys arbitrary: xs) (auto split: sum.splits)

lemma size_elements: "x \<in> set (elements v) \<Longrightarrow> size x < size v"
  by (cases v) (auto simp: less_Suc_eq_le dest: size_list_estimation')

text \<open>\<open>switch (true) { case c1: return b1; ... default: d }\<close>: the first case whose
  expression is strictly equal to \<open>true\<close> is taken.\<close>

fun switch_true :: "(bool \<times> 'a) list \<Rightarrow> 'a \<Rightarrow> 'a" where
  "switch_true [] dflt = dflt"
| "switch_true ((c, body) # cases) dflt = (if c = True then body else switch_true cases dflt)"

text \<open>\<open>toSQL\<close> of util.ts: the chain of \<open>if\<close> statements.\<close>

function toSQL :: "('n \<Rightarrow> string) \<Rightarrow> (int \<Rightarrow> string) \<Rightarrow> 'n IntoSql \<Rightarrow> error + string" where
  "toSQL numberToString isoFormat v =
     (if typeof v = ''string'' then Inr ([CHR 0x27] @ the_string v @ [CHR 0x27])
      else if typeof v = ''number'' then Inr (numberToString (the_number v))
      else if typeof v = ''boolean'' then Inr (if the_boolean v then ''TRUE'' else ''FALSE'')
      else if v = SqlNull then Inr ''NULL''
      else if instanceof_Date v then
        (case toISOString isoFormat (the_date v) of
           Inl e \<Rightarrow> Inl e
         | Inr s \<Rightarrow> Inr ([CHR 0x27] @ s @ [CHR 0x27]))
      else if isArray v then
        (case mapE (toSQL numberToString isoFormat) (elements v) of
           Inl e \<Rightarrow> Inl e
         | Inr ss \<Rightarrow> Inr (''['' @ join '', '' ss @ '']''))
      else Inl (Error (''Unsupported value type: '' @ typeof v)))"
  by pat_completeness auto
termination
  by (relation "measure (\<lambda>(numberToString, isoFormat, v). size v)") (auto simp: size_elements)

text \<open>\<open>toSQL\<close> of part_000: the \<open>switch (true)\<close>.\<close>

function toSQL_switch :: "('n \<Rightarrow> string) \<Rightarrow> (int \<Rightarrow> string) \<Rightarrow> 'n IntoSql \<Rightarrow> error + string" where
  "toSQL_switch numberToString isoFormat v =
     switch_true
       [(typeof v = ''string'', Inr ([CHR 0x27] @ the_string v @ [CHR 0x27])),
        (typeof v = ''number'', Inr (numberToString (the_number v))),
        (typeof v = ''boolean'', Inr (if the_boolean v then ''TRUE'' else ''FALSE'')),
        (v = SqlNull, Inr ''NULL''),
        (instanceof_Date v,
           (case toISOString isoFormat (the_date v) of
              Inl e \<Rightarrow> Inl e
            | Inr s \<Rightarrow> Inr ([CHR 0x27] @ s @ [CHR 0x27]))),
        (isArray v,
           (case mapE (toSQL_switch numberToString isoFormat) (elements v) of
              Inl e \<Rightarrow> Inl e
            | Inr ss \<Rightarrow> Inr (''['' @ join '', '' ss @ '']'')))]
       (Inl (Error (''Unsupported value type: '' @ typeof v)))"
  by pat_completeness auto
termination
  by (relation "measure (\<lambda>(numberToString, isoFormat, v). size v)") (auto simp: size_elements)

declare toSQL.simps [simp del]
declare toSQL_switch.simps [simp del]

text \<open>No \<open>Date\<close> in the value, at any depth, is an invalid date.\<close>

fun valid_dates :: "'n IntoSql \<Rightarrow> bool" where
  "valid_dates (SqlDate d) = (d \<noteq> InvalidDate)"
| "valid_dates (SqlArray xs) = list_all valid_dates xs"
| "valid_dates v = True"

section \<open>convertToTable (src/node/native.js, lines 75 to 109)\<close>

text \<open>
  A record (\<open>Record<string, unknown>\<close>) is the list of its own properties in the order
  \<open>Object.keys\<close> enumerates them. The apache-arrow library is outside the repository,
  and each of its operations may throw (\<open>vectorFromArray\<close> does on a column of mixed
  value types), so the library is a parameter of the model: the state of the list
  builder \<open>makeBuilder({type: list})\<close> returns, \<open>listBuilder.append\<close>,
  \<open>listBuilder.finish().toVector()\<close>, \<open>vectorFromArray\<close> and \<open>new Table\<close>, each
  with the exception it may raise. \<open>'b\<close> is the builder state, \<open>'v\<close> an arrow vector,
  \<open>'t\<close> an arrow table.
\<close>

type_synonym js_record = "(string \<times> jsval) list"












section \<open>Query builder, hybrid executor and rerankers (modelled from the spec)\<close>

text \<open>
  Modelled from the spec: the data model of section 3 (\<open>RawResult\<close>, \<open>RankedRow\<close>,
  \<open>SearchRequest\<close>) and the reranker capability of section 4.5. The repository's query
  builder, executor and rerankers are not under src/: only the native \<open>Query\<close>
  declaration (table.ts) and the reranker tests (part_001) are. A row payload maps
  column names to values. A \<open>RankedRow\<close> whose \<open>relevance_score\<close> is \<open>None\<close> is a row
  on which the reranker omitted \<open>_relevance_score\<close>. A strategy need not implement all
  three operations: an operation it lacks is \<open>None\<close>.
\<close>

record RawResult =
  raw_row :: js_record
  native_score :: real

record RankedRow =
  ranked_row :: js_record
  relevance_score :: "real option"

record Reranker =
  rerankVector :: "(string option \<Rightarrow> RawResult list \<Rightarrow> RankedRow list) option"
  rerankFts :: "(string option \<Rightarrow> RawResult list \<Rightarrow> RankedRow list) option"
  rerankHybrid ::
    "(string option \<Rightarrow> RawResult list \<Rightarrow> RawResult list \<Rightarrow> RankedRow list) option"

record SearchRequest =
  vectorQuery :: "real list option"
  textQuery :: "string option"
  filterPredicate :: "string option"
  limit :: int
  offset :: int
  selectColumns :: "string list"
  prefilter :: bool
  nprobes :: "int option"
  refineFactor :: "int option"
  reranker :: "Reranker option"

text \<open>
  Modelled from the spec: the fluent accumulation of section 4.1 (\<open>vector(q)\<close>,
  \<open>fullTextSearch(text)\<close>, \<open>where(predicate)\<close>, \<open>select(columns)\<close>, \<open>limit(n)\<close>,
  \<open>prefilter(bool)\<close>, \<open>rerank(strategy)\<close>, \<open>nprobes(n)\<close>, \<open>refineFactor(n)\<close>). A call
  only records its argument; no call validates.
\<close>

datatype builder_call =
    Vector "real list"
  | FullTextSearch string
  | Where string
  | Select "string list"
  | Limit int
  | Prefilter bool
  | Rerank Reranker
  | Nprobes int
  | RefineFactor int

fun apply_call :: "SearchRequest \<Rightarrow> builder_call \<Rightarrow> SearchRequest" where
  "apply_call r (Vector q) = r\<lparr>vectorQuery := Some q\<rparr>"
| "apply_call r (FullTextSearch t) = r\<lparr>textQuery := Some t\<rparr>"
| "apply_call r (Where p) = r\<lparr>filterPredicate := Some p\<rparr>"
| "apply_call r (Select cs) = r\<lparr>selectColumns := cs\<rparr>"
| "apply_call r (Limit n) = r\<lparr>limit := n\<rparr>"
| "apply_call r (Prefilter b) = r\<lparr>prefilter := b\<rparr>"
| "apply_call r (Rerank s) = r\<lparr>reranker := Some s\<rparr>"
| "apply_call r (Nprobes n) = r\<lparr>nprobes := Some n\<rparr>"
| "apply_call r (RefineFactor n) = r\<lparr>refineFactor := Some n\<rparr>"

definition build :: "SearchRequest \<Rightarrow> builder_call list \<Rightarrow> SearchRequest" where
  "build r calls = foldl apply_call r calls"

text \<open>
  Modelled from the spec: the error taxonomy of section 7 and the native search
  collaborator of section 6, whose failures (\<open>ProviderError\<close>, \<open>SchemaError\<close>) are
  propagated unchanged. \<open>primaryKey\<close> is the table's declared primary-key column set,
  if any (row identity, section 3).
\<close>

datatype query_error =
    ValidationError string
  | ProviderError string
  | ContractViolationError string
  | SchemaError string

datatype native_error = ProviderFailure string | SchemaMismatch string

fun propagate :: "native_error \<Rightarrow> query_error" where
  "propagate (ProviderFailure m) = ProviderError m"
| "propagate (SchemaMismatch m) = SchemaError m"

record Native =
  vectorSearch ::
    "real list \<Rightarrow> string option \<Rightarrow> bool \<Rightarrow> int option \<Rightarrow> int option \<Rightarrow> int
       \<Rightarrow> native_error + RawResult list"
  fullTextSearch ::
    "string \<Rightarrow> string option \<Rightarrow> bool \<Rightarrow> int \<Rightarrow> native_error + RawResult list"
  primaryKey :: "string list option"

text \<open>Modelled from the spec: deduplication by an identity, the first occurrence kept.\<close>

fun dedup_from :: "'k list \<Rightarrow> ('a \<Rightarrow> 'k) \<Rightarrow> 'a list \<Rightarrow> 'a list" where
  "dedup_from seen f [] = []"
| "dedup_from seen f (x # xs) =
     (if f x \<in> set seen then dedup_from seen f xs else x # dedup_from (f x # seen) f xs)"

definition dedup_by :: "('a \<Rightarrow> 'k) \<Rightarrow> 'a list \<Rightarrow> 'a list" where
  "dedup_by f xs = dedup_from [] f xs"

text \<open>
  Modelled from the spec: \<open>execute()\<close> (sections 4.1 and 4.4). Validation, then the
  native search of every active path with \<open>topK = limit\<close> and the filter passed through,
  then the merge step (the reranker's operation for the mode, or pass-through with
  \<open>_relevance_score\<close> the negated distance or the raw FTS score), the contract check on
  a reranker's output, and post-merge: deduplicate by row identity, sort descending by
  \<open>_relevance_score\<close>, truncate to \<open>limit\<close>, project. Where the spec is silent the model
  chooses: with no reranker given every active path passes through (both, when both
  are active); a reranker that lacks the operation of the mode is a
  \<open>ContractViolationError\<close>; \<open>offset\<close> is not applied.
\<close>

definition validate :: "SearchRequest \<Rightarrow> query_error + unit" where
  "validate req =
     (if limit req \<le> 0 then Inl (ValidationError ''limit must be positive'')
      else if reranker req \<noteq> None \<and> vectorQuery req = None \<and> textQuery req = None
      then Inl (ValidationError ''reranker set without a vector or text query'')
      else Inr ())"

text \<open>Modelled from the spec: the calls to the native search collaborator (sections 4.4
  and 6): an inactive path gives no candidates, a failure is propagated.\<close>

definition search_vector :: "Native \<Rightarrow> SearchRequest \<Rightarrow> query_error + RawResult list" where
  "search_vector ntv req =
     (case vectorQuery req of
        None \<Rightarrow> Inr []
      | Some q \<Rightarrow>
          (case vectorSearch ntv q (filterPredicate req) (prefilter req) (nprobes req)
                  (refineFactor req) (limit req) of
             Inl e \<Rightarrow> Inl (propagate e)
           | Inr rows \<Rightarrow> Inr rows))"

definition search_fts :: "Native \<Rightarrow> SearchRequest \<Rightarrow> query_error + RawResult list" where
  "search_fts ntv req =
     (case textQuery req of
        None \<Rightarrow> Inr []
      | Some t \<Rightarrow>
          (case fullTextSearch ntv t (filterPredicate req) (prefilter req) (limit req) of
             Inl e \<Rightarrow> Inl (propagate e)
           | Inr rows \<Rightarrow> Inr rows))"

text \<open>Modelled from the spec: mode selection and the merge step of section 4.4. The
  rows are a reranker's when one is configured.\<close>

definition was_reranked :: "SearchRequest \<Rightarrow> bool" where
  "was_reranked req = (reranker req \<noteq> None)"

definition apply_reranker ::
  "Reranker \<Rightarrow> SearchRequest \<Rightarrow> RawResult list \<Rightarrow> RawResult list \<Rightarrow> RankedRow list option" where
  "apply_reranker rr req vec fts =
     (if vectorQuery req \<noteq> None \<and> textQuery req \<noteq> None
      then map_option (\<lambda>f. f (textQuery req) vec fts) (rerankHybrid rr)
      else if vectorQuery req \<noteq> None
      then map_option (\<lambda>f. f (textQuery req) vec) (rerankVector rr)
      else map_option (\<lambda>f. f (textQuery req) fts) (rerankFts rr))"

text \<open>
  Modelled from the spec: pass-through, \<open>_relevance_score\<close> the negated distance or
  the raw FTS score (section 4.4). The path-native score of a \<open>RawResult\<close> is the row's
  internal score column of section 6, \<open>_distance\<close> for a vector result and \<open>_score\<close>
  for an FTS result (the column the rows of a vector search show in part_002).
\<close>

definition pass_through :: "RawResult list \<Rightarrow> RawResult list \<Rightarrow> (js_record \<times> real) list" where
  "pass_through vec fts =
     map (\<lambda>r. (AList.update ''_distance'' (JNum (native_score r)) (raw_row r),
               - native_score r)) vec
     @ map (\<lambda>r. (AList.update ''_score'' (JNum (native_score r)) (raw_row r),
                 native_score r)) fts"

text \<open>Modelled from the spec: the internal score columns (section 6).\<close>

definition score_columns :: "string list" where
  "score_columns = [''_distance'', ''_score'', ''_relevance_score'']"

text \<open>Modelled from the spec: row identity (section 3), the primary-key columns if
  declared, else the full row payload (the internal score columns are not payload).\<close>

definition row_identity :: "string list option \<Rightarrow> js_record \<Rightarrow> js_record" where
  "row_identity pk row =
     (case pk of
        None \<Rightarrow> filter (\<lambda>(c, v). c \<notin> set score_columns) row
      | Some cols \<Rightarrow> filter (\<lambda>(c, v). c \<in> set cols) row)"

text \<open>Modelled from the spec: the contract on a reranker's output (section 4.4), no more
  rows than the union of its inputs and a \<open>_relevance_score\<close> on every row.\<close>

fun require_scores :: "RankedRow list \<Rightarrow> (js_record \<times> real) list option" where
  "require_scores [] = Some []"
| "require_scores (r # rs) =
     (case relevance_score r of
        None \<Rightarrow> None
      | Some s \<Rightarrow>
          (case require_scores rs of
             None \<Rightarrow> None
           | Some scored \<Rightarrow> Some ((ranked_row r, s) # scored)))"

definition check_contract ::
  "string list option \<Rightarrow> RawResult list \<Rightarrow> RawResult list \<Rightarrow> RankedRow list
     \<Rightarrow> query_error + (js_record \<times> real) list" where
  "check_contract pk vec fts ranked =
     (if length (dedup_by (row_identity pk) (map raw_row (vec @ fts))) < length ranked
      then Inl (ContractViolationError ''more rows than the union of the inputs'')
      else (case require_scores ranked of
              None \<Rightarrow> Inl (ContractViolationError ''a row has no _relevance_score'')
            | Some scored \<Rightarrow> Inr scored))"

text \<open>Modelled from the spec: the merge step (section 4.4); both searches complete
  before the reranker runs, and the failure of either fails the query.\<close>

definition merge_step :: "Native \<Rightarrow> SearchRequest \<Rightarrow> query_error + (js_record \<times> real) list" where
  "merge_step ntv req =
     (case search_vector ntv req of
        Inl e \<Rightarrow> Inl e
      | Inr vec \<Rightarrow>
          (case search_fts ntv req of
             Inl e \<Rightarrow> Inl e
           | Inr fts \<Rightarrow>
               (case reranker req of
                  None \<Rightarrow> Inr (pass_through vec fts)
                | Some rr \<Rightarrow>
                    (case apply_reranker rr req vec fts of
                       None \<Rightarrow>
                         Inl (ContractViolationError ''the reranker lacks the operation'')
                     | Some ranked \<Rightarrow> check_contract (primaryKey ntv) vec fts ranked))))"

text \<open>Modelled from the spec: post-merge (section 4.4), deduplicate by row identity,
  sort descending by \<open>_relevance_score\<close> (stable), truncate to \<open>limit\<close>.\<close>

definition post_merge ::
  "string list option \<Rightarrow> int \<Rightarrow> (js_record \<times> real) list \<Rightarrow> (js_record \<times> real) list" where
  "post_merge pk n scored =
     take (nat n)
       (sort_key (\<lambda>(r, s). - s) (dedup_by (\<lambda>(r, s). row_identity pk r) scored))"

text \<open>Modelled from the spec: \<open>execute()\<close> up to the projection (sections 4.1 and 4.4).\<close>

definition execute_ranked ::
  "Native \<Rightarrow> SearchRequest \<Rightarrow> query_error + (js_record \<times> real) list" where
  "execute_ranked ntv req =
     (case validate req of
        Inl e \<Rightarrow> Inl e
      | Inr u \<Rightarrow>
          (case merge_step ntv req of
             Inl e \<Rightarrow> Inl e
           | Inr merged \<Rightarrow> Inr (post_merge (primaryKey ntv) (limit req) merged)))"

text \<open>
  Modelled from the spec: the column projection of section 4.4: a non-empty
  \<open>selectColumns\<close> keeps the named columns, an empty one means all columns. The spec
  adds that the internal score columns are hidden unless named; the repository shows
  otherwise in two places, and the model follows the repository there: a search with no
  \<open>select()\<close> returns \<open>_distance\<close> with the other columns and no \<open>_relevance_score\<close>
  (part_002, lines 74 to 80), and rows that a reranker produced keep their
  \<open>_relevance_score\<close> when \<open>select()\<close> does not name it (part_001, the test "will query
  with the custom reranker": \<open>select(["text"])\<close> yields \<open>{text, _relevance_score}\<close>).
\<close>

definition visible :: "bool \<Rightarrow> string list \<Rightarrow> string \<Rightarrow> bool" where
  "visible reranked sel c =
     (c \<in> set sel \<or> (sel = [] \<and> c \<noteq> ''_relevance_score'') \<or>
      (reranked \<and> c = ''_relevance_score''))"

definition project :: "bool \<Rightarrow> string list \<Rightarrow> js_record \<times> real \<Rightarrow> js_record" where
  "project reranked sel p =
     filter (\<lambda>(c, v). visible reranked sel c)
       (filter (\<lambda>(c, v). c \<noteq> ''_relevance_score'') (fst p)
        @ [(''_relevance_score'', JNum (snd p))])"

text \<open>Modelled from the spec: \<open>execute()\<close>, the projected result sequence.\<close>

definition execute :: "Native \<Rightarrow> SearchRequest \<Rightarrow> query_error + js_record list" where
  "execute ntv req =
     (case execute_ranked ntv req of
        Inl e \<Rightarrow> Inl e
      | Inr ranked \<Rightarrow> Inr (map (project (was_reranked req) (selectColumns req)) ranked))"

text \<open>The \<open>_relevance_score\<close> field of an output row, when it has one.\<close>

definition relevance_of :: "js_record \<Rightarrow> real option" where
  "relevance_of row =
     (case map_of row ''_relevance_score'' of Some (JNum s) \<Rightarrow> Some s | _ \<Rightarrow> None)"

section \<open>The reranker test (src/unnamed/part_001) and the search of part_002\<close>

text \<open>
  The table of \<open>beforeEach\<close>, the static result and the reranker class of the test
  "will query with the custom reranker", and the query it builds:
  \<open>nearestTo([0.1, 0.1]).fullTextSearch("dog").rerank(...).select(["text"]).limit(5)\<close>.
  The native engine is not in the repository: \<open>test_native\<close> stands for it on this
  table (both rows by ascending squared L2 distance to the query vector; the one row
  that matches "dog", with an illustrative score). \<open>empty_request\<close> is the builder
  before any call: nothing is set (the spec gives no defaults; every request built
  below sets the limit).
\<close>

definition test_rows :: "js_record list" where
  "test_rows =
     [[(''vector'', JArr [JNum 0.1, JNum 0.1]), (''text'', JStr ''dog'')],
      [(''vector'', JArr [JNum 0.2, JNum 0.2]), (''text'', JStr ''cat'')]]"

definition test_native :: Native where
  "test_native =
     \<lparr>vectorSearch = (\<lambda>q f p n rf k.
        Inr [\<lparr>raw_row = test_rows ! 0, native_score = 0\<rparr>,
             \<lparr>raw_row = test_rows ! 1, native_score = 0.02\<rparr>]),
      fullTextSearch = (\<lambda>t f p k. Inr [\<lparr>raw_row = test_rows ! 0, native_score = 1\<rparr>]),
      primaryKey = None\<rparr>"


definition MyCustomReranker :: Reranker where
  "MyCustomReranker =
     \<lparr>rerankVector = None,
      rerankFts = None,
      rerankHybrid =
        Some (\<lambda>query vecResults ftsResults.
          [\<lparr>ranked_row = [(''text'', JStr ''albert'')], relevance_score = Some 0.99\<rparr>])\<rparr>"

definition empty_request :: SearchRequest where
  "empty_request =
     \<lparr>vectorQuery = None, textQuery = None, filterPredicate = None, limit = 10, offset = 0,
      selectColumns = [], prefilter = False, nprobes = None, refineFactor = None,
      reranker = None\<rparr>"






section \<open>Properties of TTLCache\<close>

lemma TTLCache_get_absent:
  "cache c k = None \<Longrightarrow> TTLCache_get c now k = (JUndefined, c)"
  by (simp add: TTLCache_get_def)

lemma TTLCache_get_live:
  "cache c k = Some e \<Longrightarrow> \<not> expires e < now \<Longrightarrow> TTLCache_get c now k = (entry_value e, c)"
  by (simp add: TTLCache_get_def)

lemma TTLCache_get_expired:
  "cache c k = Some e \<Longrightarrow> expires e < now \<Longrightarrow>
   TTLCache_get c now k = (JUndefined, c\<lparr>cache := (cache c)(k := None)\<rparr>)"
  by (simp add: TTLCache_get_def)

text \<open>
  C3, as the claim states it, fails on the boundary: \<open>get\<close> evicts only when
  \<open>expires < Date.now()\<close>, so at the instant \<open>now = expires\<close> (which is not
  strictly before the expiry time) the entry set at \<open>t = 0\<close> with \<open>ttl = 100\<close> is
  still returned at \<open>t = 100\<close> and stays in the cache.
\<close>

theorem TTLCache_get_boundary_counterexample:
  "\<not> (100::int) < 0 + 100 \<and>
   fst (TTLCache_get (TTLCache_set (TTLCache_new 100) 0 ''a'' (JNum 1)) 100 ''a'') = JNum 1 \<and>
   cache (snd (TTLCache_get (TTLCache_set (TTLCache_new 100) 0 ''a'' (JNum 1)) 100 ''a'')) ''a''
     = Some \<lparr>entry_value = JNum 1, expires = 100\<rparr>"
  by (simp add: TTLCache_get_def TTLCache_set_def TTLCache_new_def)

text \<open>
  C3 (amended): for every key \<open>k\<close>, \<open>get(k)\<close> returns the stored value and leaves the
  cache unchanged exactly when an entry is present and the current time is not after
  its expiry time (\<open>now \<le> expires\<close>); when the entry is present and
  \<open>expires < now\<close>, \<open>get(k)\<close> removes the entry (and only it) and returns
  \<open>undefined\<close>, so the entry is absent afterwards; with no entry it returns
  \<open>undefined\<close> and changes nothing. In particular \<open>set("a", 1)\<close> at \<open>t = 0\<close> with
  \<open>ttl = 100\<close> gives \<open>get("a") = 1\<close> at \<open>t = 50\<close> and a miss at \<open>t = 150\<close>, after
  which the entry is absent.
\<close>

theorem TTLCache_get_lazy_expiry:
  "(cache c k = None \<longrightarrow> TTLCache_get c now k = (JUndefined, c)) \<and>
   (\<forall>e. cache c k = Some e \<and> now \<le> expires e \<longrightarrow>
        TTLCache_get c now k = (entry_value e, c)) \<and>
   (\<forall>e. cache c k = Some e \<and> expires e < now \<longrightarrow>
        fst (TTLCache_get c now k) = JUndefined \<and>
        cache (snd (TTLCache_get c now k)) k = None \<and>
        (\<forall>k'. k' \<noteq> k \<longrightarrow> cache (snd (TTLCache_get c now k)) k' = cache c k') \<and>
        ttl (snd (TTLCache_get c now k)) = ttl c) \<and>
   fst (TTLCache_get (TTLCache_set (TTLCache_new 100) 0 ''a'' (JNum 1)) 50 ''a'') = JNum 1 \<and>
   fst (TTLCache_get (TTLCache_set (TTLCache_new 100) 0 ''a'' (JNum 1)) 150 ''a'') = JUndefined \<and>
   cache (snd (TTLCache_get (TTLCache_set (TTLCache_new 100) 0 ''a'' (JNum 1)) 150 ''a'')) ''a''
     = None"
proof (intro conjI allI impI)
  show "TTLCache_get c now k = (JUndefined, c)" if "cache c k = None"
    using that by (rule TTLCache_get_absent)
next
  fix e assume "cache c k = Some e \<and> now \<le> expires e"
  then show "TTLCache_get c now k = (entry_value e, c)"
    by (simp add: TTLCache_get_live)
next
  fix e assume h: "cache c k = Some e \<and> expires e < now"
  then have eq: "TTLCache_get c now k = (JUndefined, c\<lparr>cache := (cache c)(k := None)\<rparr>)"
    by (simp add: TTLCache_get_expired)
  show "fst (TTLCache_get c now k) = JUndefined" by (simp add: eq)
  show "cache (snd (TTLCache_get c now k)) k = None" by (simp add: eq)
  show "ttl (snd (TTLCache_get c now k)) = ttl c" by (simp add: eq)
  fix k' assume "k' \<noteq> k"
  then show "cache (snd (TTLCache_get c now k)) k' = cache c k'" by (simp add: eq)
qed (simp_all add: TTLCache_get_def TTLCache_set_def TTLCache_new_def)

theorem TTLCache_get_lazy_expiry_witness:
  "TTLCache_get \<lparr>ttl = 100, cache = [''a'' \<mapsto> \<lparr>entry_value = JNum 1, expires = 100\<rparr>]\<rparr> 100 ''a''
     = (JNum 1, \<lparr>ttl = 100, cache = [''a'' \<mapsto> \<lparr>entry_value = JNum 1, expires = 100\<rparr>]\<rparr>) \<and>
   fst (TTLCache_get \<lparr>ttl = 100, cache = [''a'' \<mapsto> \<lparr>entry_value = JNum 1, expires = 100\<rparr>]\<rparr> 101 ''a'')
     = JUndefined \<and>
   cache (snd (TTLCache_get \<lparr>ttl = 100, cache = [''a'' \<mapsto> \<lparr>entry_value = JNum 1, expires = 100\<rparr>]\<rparr> 101 ''a'')) ''a''
     = None \<and>
   TTLCache_get \<lparr>ttl = 100, cache = [''a'' \<mapsto> \<lparr>entry_value = JNum 1, expires = 100\<rparr>]\<rparr> 7 ''b''
     = (JUndefined, \<lparr>ttl = 100, cache = [''a'' \<mapsto> \<lparr>entry_value = JNum 1, expires = 100\<rparr>]\<rparr>)"
  using
    TTLCache_get_lazy_expiry
      [of "\<lparr>ttl = 100, cache = [''a'' \<mapsto> \<lparr>entry_value = JNum 1, expires = 100\<rparr>]\<rparr>" "''a''" 100]
    TTLCache_get_lazy_expiry
      [of "\<lparr>ttl = 100, cache = [''a'' \<mapsto> \<lparr>entry_value = JNum 1, expires = 100\<rparr>]\<rparr>" "''a''" 101]
    TTLCache_get_lazy_expiry
      [of "\<lparr>ttl = 100, cache = [''a'' \<mapsto> \<lparr>entry_value = JNum 1, expires = 100\<rparr>]\<rparr>" "''b''" 7]
  by simp

text \<open>
  C6: \<open>set(k, v)\<close> stores the entry \<open>{value: v, expires: now + ttl}\<close> under \<open>k\<close>
  whatever was there before (a live entry, an expired one or none) and changes no other
  key; a \<open>get(k)\<close> that follows at a time \<open>t'\<close> not after \<open>t + ttl\<close> (in particular
  before the ttl has elapsed) returns \<open>v\<close> and leaves the cache as \<open>set\<close> made it.
\<close>

theorem TTLCache_set_overwrites:
  "cache (TTLCache_set c t k v) k = Some \<lparr>entry_value = v, expires = t + ttl c\<rparr> \<and>
   (\<forall>k'. k' \<noteq> k \<longrightarrow> cache (TTLCache_set c t k v) k' = cache c k') \<and>
   ttl (TTLCache_set c t k v) = ttl c \<and>
   (t' \<le> t + ttl c \<longrightarrow>
      TTLCache_get (TTLCache_set c t k v) t' k = (v, TTLCache_set c t k v))"
  by (simp add: TTLCache_set_def TTLCache_get_def)

theorem TTLCache_set_overwrites_witness:
  "cache (TTLCache_set \<lparr>ttl = 100, cache = [''a'' \<mapsto> \<lparr>entry_value = JStr ''old'', expires = 3\<rparr>]\<rparr>
            500 ''a'' (JNum 2)) ''a''
     = Some \<lparr>entry_value = JNum 2, expires = 600\<rparr> \<and>
   fst (TTLCache_get
          (TTLCache_set \<lparr>ttl = 100, cache = [''a'' \<mapsto> \<lparr>entry_value = JStr ''old'', expires = 3\<rparr>]\<rparr>
             500 ''a'' (JNum 2)) 599 ''a'') = JNum 2 \<and>
   fst (TTLCache_get \<lparr>ttl = 100, cache = [''a'' \<mapsto> \<lparr>entry_value = JStr ''old'', expires = 3\<rparr>]\<rparr>
          500 ''a'') = JUndefined"
  using TTLCache_set_overwrites
    [of "\<lparr>ttl = 100, cache = [''a'' \<mapsto> \<lparr>entry_value = JStr ''old'', expires = 3\<rparr>]\<rparr>"
        500 "''a''" "JNum 2" 599]
  by (simp add: TTLCache_get_def)

text \<open>
  C7: \<open>delete(k)\<close> removes the entry for \<open>k\<close> whether it is live, expired or absent
  (there is no condition on the cache or on the time); a \<open>get(k)\<close> after it, at any
  time, returns \<open>undefined\<close>; the entries of every other key, and the ttl, are
  unchanged.
\<close>

theorem TTLCache_delete_removes:
  "cache (TTLCache_delete c k) k = None \<and>
   TTLCache_get (TTLCache_delete c k) now k = (JUndefined, TTLCache_delete c k) \<and>
   (\<forall>k'. k' \<noteq> k \<longrightarrow> cache (TTLCache_delete c k) k' = cache c k') \<and>
   ttl (TTLCache_delete c k) = ttl c"
  by (simp add: TTLCache_delete_def TTLCache_get_def)

theorem TTLCache_delete_removes_witness:
  "cache (TTLCache_delete
            \<lparr>ttl = 100, cache = [''a'' \<mapsto> \<lparr>entry_value = JNum 1, expires = 100\<rparr>,
                                 ''b'' \<mapsto> \<lparr>entry_value = JNum 2, expires = 5\<rparr>]\<rparr> ''a'') ''a'' = None \<and>
   fst (TTLCache_get
          (TTLCache_delete
             \<lparr>ttl = 100, cache = [''a'' \<mapsto> \<lparr>entry_value = JNum 1, expires = 100\<rparr>,
                                  ''b'' \<mapsto> \<lparr>entry_value = JNum 2, expires = 5\<rparr>]\<rparr> ''a'') 50 ''a'')
     = JUndefined \<and>
   cache (TTLCache_delete
            \<lparr>ttl = 100, cache = [''a'' \<mapsto> \<lparr>entry_value = JNum 1, expires = 100\<rparr>,
                                 ''b'' \<mapsto> \<lparr>entry_value = JNum 2, expires = 5\<rparr>]\<rparr> ''a'') ''b''
     = Some \<lparr>entry_value = JNum 2, expires = 5\<rparr>"
  using TTLCache_delete_removes
    [of "\<lparr>ttl = 100, cache = [''a'' \<mapsto> \<lparr>entry_value = JNum 1, expires = 100\<rparr>,
                              ''b'' \<mapsto> \<lparr>entry_value = JNum 2, expires = 5\<rparr>]\<rparr>" "''a''" 50]
  by simp

section \<open>Properties of toSQL\<close>

lemma toSQL_String: "toSQL ns f (SqlString s) = Inr ([CHR 0x27] @ s @ [CHR 0x27])"
  by (simp add: toSQL.simps)

lemma toSQL_Number: "toSQL ns f (SqlNumber n) = Inr (ns n)"
  by (simp add: toSQL.simps)

lemma toSQL_Boolean: "toSQL ns f (SqlBoolean b) = Inr (if b then ''TRUE'' else ''FALSE'')"
  by (simp add: toSQL.simps)

lemma toSQL_Null: "toSQL ns f SqlNull = Inr ''NULL''"
  by (simp add: toSQL.simps)

lemma toSQL_Date:
  "toSQL ns f (SqlDate d) =
     (case d of
        InvalidDate \<Rightarrow> Inl (RangeError ''Invalid time value'')
      | TimeValue t \<Rightarrow> Inr ([CHR 0x27] @ f t @ [CHR 0x27]))"
  by (simp add: toSQL.simps toISOString_def split: jsdate.splits)

lemma toSQL_Array:
  "toSQL ns f (SqlArray xs) =
     (case mapE (toSQL ns f) xs of
        Inl e \<Rightarrow> Inl e
      | Inr ss \<Rightarrow> Inr (''['' @ join '', '' ss @ '']''))"
  by (simp add: toSQL.simps)

lemmas toSQL_eqs = toSQL_String toSQL_Number toSQL_Boolean toSQL_Null toSQL_Date toSQL_Array

lemma mapE_total:
  "(\<And>x. x \<in> set xs \<Longrightarrow> \<exists>y. f x = Inr y) \<Longrightarrow> \<exists>ys. mapE f xs = Inr ys"
proof (induction xs)
  case Nil
  then show ?case by simp
next
  case (Cons x xs)
  then obtain y where y: "f x = Inr y" by auto
  from Cons obtain ys where "mapE f xs = Inr ys" by auto
  with y show ?case by simp
qed

lemma mapE_Inl_elem:
  "mapE f xs = Inl e \<Longrightarrow> \<exists>x \<in> set xs. f x = Inl e"
  by (induction xs) (auto split: sum.splits)

lemma mapE_elem_Inl:
  "x \<in> set xs \<Longrightarrow> f x = Inl e \<Longrightarrow> \<exists>e'. mapE f xs = Inl e'"
  by (induction xs) (auto split: sum.splits)

lemma toSQL_valid: "valid_dates v \<Longrightarrow> \<exists>s. toSQL ns f v = Inr s"
proof (induction v)
  case (SqlArray xs)
  have "\<exists>ys. mapE (toSQL ns f) xs = Inr ys"
    using SqlArray by (intro mapE_total) (auto simp: list_all_iff)
  then show ?case by (auto simp: toSQL_Array)
next
  case (SqlDate d)
  then show ?case by (cases d) (simp_all add: toSQL_Date)
qed (simp_all add: toSQL_eqs)

lemma toSQL_error: "toSQL ns f v = Inl e \<Longrightarrow> e = RangeError ''Invalid time value''"
proof (induction v arbitrary: e)
  case (SqlArray xs)
  then have "mapE (toSQL ns f) xs = Inl e"
    by (simp add: toSQL_Array split: sum.splits)
  from mapE_Inl_elem[OF this] obtain x where "x \<in> set xs" "toSQL ns f x = Inl e"
    by blast
  with SqlArray.IH show ?case by blast
next
  case (SqlDate d)
  then show ?case by (cases d) (simp_all add: toSQL_Date)
qed (simp_all add: toSQL_eqs)

lemma toSQL_invalid: "\<not> valid_dates v \<Longrightarrow> \<exists>e. toSQL ns f v = Inl e"
proof (induction v)
  case (SqlArray xs)
  then obtain x where x: "x \<in> set xs" "\<not> valid_dates x"
    by (auto simp: list_all_iff)
  with SqlArray.IH obtain e where "toSQL ns f x = Inl e" by blast
  from mapE_elem_Inl[of x xs "toSQL ns f" e, OF x(1) this] obtain e' where "mapE (toSQL ns f) xs = Inl e'"
    by blast
  then show ?case by (simp add: toSQL_Array)
next
  case (SqlDate d)
  then show ?case by (cases d) (simp_all add: toSQL_Date)
qed simp_all

text \<open>
  C10, as the claim states it, fails on totality: a \<open>Date\<close> whose time value is
  \<open>NaN\<close> is a \<open>Date\<close> (\<open>value instanceof Date\<close> holds), and \<open>toISOString\<close> throws
  \<open>RangeError\<close> on it; so does \<open>toSQL\<close>, also for an array that holds one.
\<close>

theorem toSQL_invalid_date_counterexample:
  "toSQL (\<lambda>n::int. ''0'') (\<lambda>t. ''1970-01-01T00:00:00.000Z'') (SqlDate InvalidDate)
     = Inl (RangeError ''Invalid time value'') \<and>
   toSQL (\<lambda>n::int. ''0'') (\<lambda>t. ''1970-01-01T00:00:00.000Z'')
       (SqlArray [SqlString ''a'', SqlDate InvalidDate])
     = Inl (RangeError ''Invalid time value'')"
  by (simp add: toSQL_eqs)

text \<open>
  C10 (amended): for every string \<open>s\<close>, \<open>toSQL(s)\<close> is a single-quote character, then
  \<open>s\<close> verbatim, then a single-quote character, with no escaping, also when \<open>s\<close>
  contains single quotes (\<open>it's\<close> gives \<open>'it's'\<close>); \<open>toSQL\<close> returns a string without
  throwing for strings, numbers, booleans, null, valid Dates and arbitrarily nested
  arrays of these; for a value that holds an invalid Date at any depth it throws the
  \<open>RangeError\<close> of \<open>toISOString\<close>. The final \<open>throw new Error\<close> is never reached.
\<close>

theorem toSQL_quotes_and_totality:
  "toSQL ns f (SqlString s) = Inr ([CHR 0x27] @ s @ [CHR 0x27]) \<and>
   toSQL ns f (SqlString (''it'' @ [CHR 0x27] @ ''s''))
     = Inr ([CHR 0x27] @ ''it'' @ [CHR 0x27] @ ''s'' @ [CHR 0x27]) \<and>
   (valid_dates v \<longrightarrow> (\<exists>r. toSQL ns f v = Inr r)) \<and>
   (\<not> valid_dates v \<longrightarrow> toSQL ns f v = Inl (RangeError ''Invalid time value''))"
proof (intro conjI impI)
  show "toSQL ns f (SqlString s) = Inr ([CHR 0x27] @ s @ [CHR 0x27])"
    by (rule toSQL_String)
  show "toSQL ns f (SqlString (''it'' @ [CHR 0x27] @ ''s''))
          = Inr ([CHR 0x27] @ ''it'' @ [CHR 0x27] @ ''s'' @ [CHR 0x27])"
    by (simp add: toSQL_String)
  show "\<exists>r. toSQL ns f v = Inr r" if "valid_dates v"
    using that by (rule toSQL_valid)
  show "toSQL ns f v = Inl (RangeError ''Invalid time value'')" if "\<not> valid_dates v"
  proof -
    from toSQL_invalid[OF that] obtain e where e: "toSQL ns f v = Inl e" by blast
    from toSQL_error[OF e] e show ?thesis by simp
  qed
qed

theorem toSQL_quotes_and_totality_witness:
  "(\<exists>r. toSQL (\<lambda>n::int. ''7'') (\<lambda>t. ''1970-01-01T00:00:00.000Z'')
          (SqlArray [SqlString ''a'', SqlNumber 7, SqlDate (TimeValue 0),
                     SqlArray [SqlNull, SqlBoolean True]]) = Inr r) \<and>
   toSQL (\<lambda>n::int. ''7'') (\<lambda>t. ''1970-01-01T00:00:00.000Z'')
     (SqlArray [SqlNumber 7, SqlArray [SqlDate InvalidDate]])
     = Inl (RangeError ''Invalid time value'')"
  using
    toSQL_quotes_and_totality
      [of "\<lambda>n::int. ''7''" "\<lambda>t. ''1970-01-01T00:00:00.000Z''" "''a''"
          "SqlArray [SqlString ''a'', SqlNumber 7, SqlDate (TimeValue 0),
                     SqlArray [SqlNull, SqlBoolean True]]"]
    toSQL_quotes_and_totality
      [of "\<lambda>n::int. ''7''" "\<lambda>t. ''1970-01-01T00:00:00.000Z''" "''a''"
          "SqlArray [SqlNumber 7, SqlArray [SqlDate InvalidDate]]"]
  by simp

section \<open>The two copies of util.ts agree\<close>

lemma toSQL_switch_eq: "toSQL_switch ns f v = toSQL ns f v"
proof (induction v)
  case (SqlArray xs)
  have "mapE (toSQL_switch ns f) xs = mapE (toSQL ns f) xs"
    using SqlArray by (intro mapE_cong) auto
  then show ?case by (simp add: toSQL_switch.simps toSQL_Array)
next
  case (SqlDate d)
  then show ?case by (simp add: toSQL_switch.simps toSQL.simps)
qed (simp_all add: toSQL_switch.simps toSQL_eqs)


lemma TTLCache_part000_eq:
  "TTLCache_new_part000 = TTLCache_new"
  "TTLCache_get_part000 = TTLCache_get"
  "TTLCache_set_part000 = TTLCache_set"
  "TTLCache_delete_part000 = TTLCache_delete"
  by (simp_all add: fun_eq_iff TTLCache_new_part000_def TTLCache_new_def
      TTLCache_get_part000_def TTLCache_get_def TTLCache_set_part000_def TTLCache_set_def
      TTLCache_delete_part000_def TTLCache_delete_def)

lemma run_part000_eq: "run_part000 c ops = run_util c ops"
  by (induction c ops rule: run_util.induct)
    (auto simp: TTLCache_part000_eq split: prod.splits)

text \<open>
  C9: the \<open>switch (true)\<close> definition of \<open>toSQL\<close> in part_000 and the \<open>if\<close> chain of
  util.ts return the same string, or throw the same exception, on every \<open>IntoSql\<close>
  value; the two \<open>TTLCache\<close> classes start from the same empty cache, and every
  sequence of \<open>get\<close>/\<open>set\<close>/\<open>delete\<close> calls made at the same times gives the same
  results and the same final cache in both.
\<close>

theorem part000_equals_util:
  "toSQL_switch ns f v = toSQL ns f v \<and>
   TTLCache_new_part000 t = TTLCache_new t \<and>
   run_part000 c ops = run_util c ops"
  by (simp add: toSQL_switch_eq TTLCache_part000_eq run_part000_eq)

section \<open>Properties of convertToTable\<close>











section \<open>Properties of the modelled query pipeline\<close>

lemma set_dedup_from: "f ` set (dedup_from seen f xs) = f ` set xs - set seen"
  by (induction xs arbitrary: seen) auto

lemma distinct_dedup_from: "distinct (map f (dedup_from seen f xs))"
proof (induction xs arbitrary: seen)
  case Nil
  then show ?case by simp
next
  case (Cons x xs)
  have "f x \<notin> f ` set (dedup_from (f x # seen) f xs)"
    by (simp add: set_dedup_from)
  with Cons show ?case by simp
qed

lemma length_dedup_from: "length (dedup_from seen f xs) \<le> length xs"
  by (induction xs arbitrary: seen) (auto simp: le_SucI)

lemma sorted_desc_sort_key:
  "sorted_wrt (\<lambda>a b. snd b \<le> snd a) (sort_key (\<lambda>(r, s). - s) (xs :: ('a \<times> real) list))"
proof -
  have "sorted (map (\<lambda>(r, s). - s) (sort_key (\<lambda>(r, s). - s) xs))"
    by (rule sorted_sort_key)
  then show ?thesis
    by (simp add: sorted_map case_prod_beta)
qed

lemma post_merge_sorted: "sorted_wrt (\<lambda>a b. snd b \<le> snd a) (post_merge pk n scored)"
  unfolding post_merge_def by (intro sorted_wrt_take sorted_desc_sort_key)

lemma post_merge_length: "length (post_merge pk n scored) \<le> nat n"
  by (simp add: post_merge_def)

lemma map_of_filter_key:
  "map_of (filter (\<lambda>(c, v). P c) xs) k = (if P k then map_of xs k else None)"
  by (induction xs) auto

lemma relevance_of_project:
  "relevance_of (project rr sel p) =
     (if visible rr sel ''_relevance_score'' then Some (snd p) else None)"
proof -
  define xs where
    "xs = filter (\<lambda>(c, v). c \<noteq> ''_relevance_score'') (fst p)
          @ [(''_relevance_score'', JNum (snd p))]"
  have "map_of (filter (\<lambda>(c, v). c \<noteq> ''_relevance_score'') (fst p)) ''_relevance_score'' = None"
    by (simp add: map_of_filter_key)
  then have m: "map_of xs ''_relevance_score'' = Some (JNum (snd p))"
    by (simp add: xs_def map_add_def)
  have "map_of (filter (\<lambda>(c, v). visible rr sel c) xs) ''_relevance_score'' =
        (if visible rr sel ''_relevance_score'' then Some (JNum (snd p)) else None)"
    by (simp only: map_of_filter_key m)
  moreover have "project rr sel p = filter (\<lambda>(c, v). visible rr sel c) xs"
    by (simp only: project_def xs_def)
  ultimately show ?thesis
    by (simp add: relevance_of_def)
qed


lemma execute_Inr:
  "execute ntv req = Inr out \<Longrightarrow>
   \<exists>ranked. execute_ranked ntv req = Inr ranked \<and>
            out = map (project (was_reranked req) (selectColumns req)) ranked"
  by (auto simp: execute_def split: sum.splits)

lemma execute_ranked_Inr:
  "execute_ranked ntv req = Inr ranked \<Longrightarrow>
   \<exists>merged. ranked = post_merge (primaryKey ntv) (limit req) merged"
  by (auto simp: execute_ranked_def split: sum.splits)

lemma propagate_not_validation: "propagate e \<noteq> ValidationError m"
  by (cases e) simp_all

lemma merge_step_not_validation: "merge_step ntv req \<noteq> Inl (ValidationError m)"
  by (auto simp: merge_step_def search_vector_def search_fts_def check_contract_def
      propagate_not_validation split: sum.splits option.splits if_splits)

lemma execute_validation:
  "(\<exists>m. execute ntv req = Inl (ValidationError m)) \<longleftrightarrow> (\<exists>m. validate req = Inl (ValidationError m))"
proof
  assume "\<exists>m. execute ntv req = Inl (ValidationError m)"
  then obtain m where "execute ntv req = Inl (ValidationError m)" by blast
  then have "execute_ranked ntv req = Inl (ValidationError m)"
    by (auto simp: execute_def split: sum.splits)
  then have "validate req = Inl (ValidationError m)"
    using merge_step_not_validation[of ntv req m]
    by (auto simp: execute_ranked_def split: sum.splits)
  then show "\<exists>m. validate req = Inl (ValidationError m)" by blast
next
  assume "\<exists>m. validate req = Inl (ValidationError m)"
  then show "\<exists>m. execute ntv req = Inl (ValidationError m)"
    by (auto simp: execute_def execute_ranked_def)
qed

lemma validate_iff:
  "(\<exists>m. validate req = Inl (ValidationError m)) \<longleftrightarrow>
   (limit req \<le> 0 \<or> (reranker req \<noteq> None \<and> vectorQuery req = None \<and> textQuery req = None))"
  by (auto simp: validate_def)

lemma apply_call_limit:
  "limit (apply_call r c) = (case c of Limit n \<Rightarrow> n | _ \<Rightarrow> limit r)"
  by (cases c) simp_all

lemma build_limit:
  "\<exists>n. Limit n \<in> set cs \<Longrightarrow> Limit (limit (build r cs)) \<in> set cs"
proof (induction cs arbitrary: r rule: rev_induct)
  case Nil
  then show ?case by simp
next
  case (snoc c cs)
  show ?case
  proof (cases c)
    case (Limit n)
    then show ?thesis by (simp add: build_def)
  next
    case (Vector q)
    with snoc.prems have "\<exists>n. Limit n \<in> set cs" by auto
    from snoc.IH[OF this, of r] Vector show ?thesis by (simp add: build_def)
  next
    case (FullTextSearch t)
    with snoc.prems have "\<exists>n. Limit n \<in> set cs" by auto
    from snoc.IH[OF this, of r] FullTextSearch show ?thesis by (simp add: build_def)
  next
    case (Where p)
    with snoc.prems have "\<exists>n. Limit n \<in> set cs" by auto
    from snoc.IH[OF this, of r] Where show ?thesis by (simp add: build_def)
  next
    case (Select p)
    with snoc.prems have "\<exists>n. Limit n \<in> set cs" by auto
    from snoc.IH[OF this, of r] Select show ?thesis by (simp add: build_def)
  next
    case (Prefilter p)
    with snoc.prems have "\<exists>n. Limit n \<in> set cs" by auto
    from snoc.IH[OF this, of r] Prefilter show ?thesis by (simp add: build_def)
  next
    case (Rerank p)
    with snoc.prems have "\<exists>n. Limit n \<in> set cs" by auto
    from snoc.IH[OF this, of r] Rerank show ?thesis by (simp add: build_def)
  next
    case (Nprobes p)
    with snoc.prems have "\<exists>n. Limit n \<in> set cs" by auto
    from snoc.IH[OF this, of r] Nprobes show ?thesis by (simp add: build_def)
  next
    case (RefineFactor p)
    with snoc.prems have "\<exists>n. Limit n \<in> set cs" by auto
    from snoc.IH[OF this, of r] RefineFactor show ?thesis by (simp add: build_def)
  qed
qed

lemma apply_call_keeps_vector: "vectorQuery r \<noteq> None \<Longrightarrow> vectorQuery (apply_call r c) \<noteq> None"
  by (cases c) simp_all

lemma apply_call_keeps_text: "textQuery r \<noteq> None \<Longrightarrow> textQuery (apply_call r c) \<noteq> None"
  by (cases c) simp_all

lemma build_vector: "Vector q \<in> set cs \<Longrightarrow> vectorQuery (build r cs) \<noteq> None"
proof (induction cs arbitrary: r rule: rev_induct)
  case Nil
  then show ?case by simp
next
  case (snoc c cs)
  show ?case
  proof (cases "c = Vector q")
    case True
    then show ?thesis by (simp add: build_def)
  next
    case False
    with snoc.prems have "Vector q \<in> set cs" by auto
    from snoc.IH[OF this, of r] show ?thesis
      using apply_call_keeps_vector by (simp add: build_def)
  qed
qed

lemma build_text: "FullTextSearch t \<in> set cs \<Longrightarrow> textQuery (build r cs) \<noteq> None"
proof (induction cs arbitrary: r rule: rev_induct)
  case Nil
  then show ?case by simp
next
  case (snoc c cs)
  show ?case
  proof (cases "c = FullTextSearch t")
    case True
    then show ?thesis by (simp add: build_def)
  next
    case False
    with snoc.prems have "FullTextSearch t \<in> set cs" by auto
    from snoc.IH[OF this, of r] show ?thesis
      using apply_call_keeps_text by (simp add: build_def)
  qed
qed








lemma build_no_rerank:
  "reranker r = None \<Longrightarrow> (\<forall>s. Rerank s \<notin> set cs) \<Longrightarrow> reranker (build r cs) = None"
proof (induction cs arbitrary: r rule: rev_induct)
  case Nil
  then show ?case by (simp add: build_def)
next
  case (snoc c cs)
  then have "reranker (build r cs) = None" by simp
  moreover have "\<forall>s. c \<noteq> Rerank s" using snoc.prems(2) by auto
  ultimately show ?case by (cases c) (simp_all add: build_def)
qed

text \<open>
  C1: for every limit \<open>L > 0\<close>, the sequence \<open>execute()\<close> returns has at most \<open>L\<close> rows, and
  they are ordered non-increasing in \<open>_relevance_score\<close>: the ranked rows behind the
  output are, and so are the \<open>_relevance_score\<close> fields of the output rows wherever the
  projection leaves them in.
\<close>

theorem execute_limit_and_order:
  "0 < limit req \<and> execute ntv req = Inr out \<longrightarrow>
     length out \<le> nat (limit req) \<and>
     sorted_wrt (\<lambda>a b. \<forall>x y. relevance_of a = Some x \<and> relevance_of b = Some y \<longrightarrow> y \<le> x) out \<and>
     (\<exists>ranked. execute_ranked ntv req = Inr ranked \<and>
        out = map (project (was_reranked req) (selectColumns req)) ranked \<and>
        sorted_wrt (\<lambda>a b. snd b \<le> snd a) ranked)"
proof (intro impI)
  assume h: "0 < limit req \<and> execute ntv req = Inr out"
  from execute_Inr[of ntv req out] h obtain ranked where
    r: "execute_ranked ntv req = Inr ranked"
    and o: "out = map (project (was_reranked req) (selectColumns req)) ranked" by blast
  from execute_ranked_Inr[OF r] obtain merged where
    m: "ranked = post_merge (primaryKey ntv) (limit req) merged" by blast
  have len: "length out \<le> nat (limit req)"
    by (simp add: o m post_merge_length)
  have srt: "sorted_wrt (\<lambda>a b. snd b \<le> snd a) ranked"
    by (simp add: m post_merge_sorted)
  have "sorted_wrt (\<lambda>a b. \<forall>x y.
            relevance_of (project (was_reranked req) (selectColumns req) a) = Some x \<and>
            relevance_of (project (was_reranked req) (selectColumns req) b) = Some y
            \<longrightarrow> y \<le> x) ranked"
    by (rule sorted_wrt_mono_rel[OF _ srt]) (auto simp: relevance_of_project split: if_splits)
  then have "sorted_wrt (\<lambda>a b. \<forall>x y. relevance_of a = Some x \<and> relevance_of b = Some y \<longrightarrow> y \<le> x) out"
    by (simp add: o sorted_wrt_map)
  with len srt r o show "length out \<le> nat (limit req) \<and>
     sorted_wrt (\<lambda>a b. \<forall>x y. relevance_of a = Some x \<and> relevance_of b = Some y \<longrightarrow> y \<le> x) out \<and>
     (\<exists>ranked. execute_ranked ntv req = Inr ranked \<and>
        out = map (project (was_reranked req) (selectColumns req)) ranked \<and>
        sorted_wrt (\<lambda>a b. snd b \<le> snd a) ranked)" by blast
qed

lemma test_vector_only:
  "execute test_native
     (build empty_request
        [Vector [0.1, 0.1], Select [''text'', ''_relevance_score''], Limit 5]) =
   Inr [[(''text'', JStr ''dog''), (''_relevance_score'', JNum 0)],
        [(''text'', JStr ''cat''), (''_relevance_score'', JNum (- 0.02))]]"
  by (simp add: build_def empty_request_def execute_def execute_ranked_def validate_def
      merge_step_def search_vector_def search_fts_def test_native_def pass_through_def
      dedup_by_def row_identity_def score_columns_def test_rows_def post_merge_def
      project_def visible_def was_reranked_def)

theorem execute_limit_and_order_witness:
  "execute test_native
     (build empty_request
        [Vector [0.1, 0.1], Select [''text'', ''_relevance_score''], Limit 5]) =
     Inr [[(''text'', JStr ''dog''), (''_relevance_score'', JNum 0)],
          [(''text'', JStr ''cat''), (''_relevance_score'', JNum (- 0.02))]] \<and>
   length [[(''text'', JStr ''dog''), (''_relevance_score'', JNum 0)],
           [(''text'', JStr ''cat''), (''_relevance_score'', JNum (- 0.02))]]
     \<le> nat (limit (build empty_request
                     [Vector [0.1, 0.1], Select [''text'', ''_relevance_score''], Limit 5])) \<and>
   (\<exists>ranked. execute_ranked test_native
               (build empty_request
                  [Vector [0.1, 0.1], Select [''text'', ''_relevance_score''], Limit 5])
             = Inr ranked \<and>
      sorted_wrt (\<lambda>a b. snd b \<le> snd a) ranked)"
  using execute_limit_and_order
    [of "build empty_request
           [Vector [0.1, 0.1], Select [''text'', ''_relevance_score''], Limit 5]"
        test_native
        "[[(''text'', JStr ''dog''), (''_relevance_score'', JNum 0)],
          [(''text'', JStr ''cat''), (''_relevance_score'', JNum (- 0.02))]]"]
    test_vector_only
  by (auto simp: build_def empty_request_def)











text \<open>
  C5: the builder calls only record their arguments; \<open>execute()\<close> fails with
  \<open>ValidationError\<close> exactly when \<open>limit \<le> 0\<close>, or a reranker is set and neither a vector
  query nor a text query is configured. Hence, whatever the order of the calls, a call
  sequence whose \<open>limit\<close> calls are all positive (and that has one) and that sets a
  search mode, or sets no reranker, does not raise \<open>ValidationError\<close>.
\<close>

theorem validation_at_execute:
  "((\<exists>m. execute ntv req = Inl (ValidationError m)) \<longleftrightarrow>
      (limit req \<le> 0 \<or>
       (reranker req \<noteq> None \<and> vectorQuery req = None \<and> textQuery req = None))) \<and>
   ((\<exists>n. Limit n \<in> set cs) \<and> (\<forall>n. Limit n \<in> set cs \<longrightarrow> 0 < n) \<and>
    ((\<exists>q. Vector q \<in> set cs) \<or> (\<exists>t. FullTextSearch t \<in> set cs) \<or>
     (reranker r = None \<and> (\<forall>s. Rerank s \<notin> set cs))) \<longrightarrow>
      \<not> (\<exists>m. execute ntv (build r cs) = Inl (ValidationError m)))"
proof (intro conjI impI)
  show "(\<exists>m. execute ntv req = Inl (ValidationError m)) \<longleftrightarrow>
      (limit req \<le> 0 \<or>
       (reranker req \<noteq> None \<and> vectorQuery req = None \<and> textQuery req = None))"
    using execute_validation[of ntv req] validate_iff[of req] by blast
next
  assume h: "(\<exists>n. Limit n \<in> set cs) \<and> (\<forall>n. Limit n \<in> set cs \<longrightarrow> 0 < n) \<and>
    ((\<exists>q. Vector q \<in> set cs) \<or> (\<exists>t. FullTextSearch t \<in> set cs) \<or>
     (reranker r = None \<and> (\<forall>s. Rerank s \<notin> set cs)))"
  then have "Limit (limit (build r cs)) \<in> set cs" using build_limit by blast
  with h have pos: "0 < limit (build r cs)" by blast
  have mode: "reranker (build r cs) = None \<or> vectorQuery (build r cs) \<noteq> None \<or>
              textQuery (build r cs) \<noteq> None"
    using h build_vector[of _ cs r] build_text[of _ cs r] build_no_rerank[of r cs] by blast
  have "\<not> (\<exists>m. validate (build r cs) = Inl (ValidationError m))"
    using pos mode validate_iff[of "build r cs"] by auto
  then show "\<not> (\<exists>m. execute ntv (build r cs) = Inl (ValidationError m))"
    using execute_validation[of ntv "build r cs"] by blast
qed

theorem validation_at_execute_witness:
  "\<not> (\<exists>m. execute test_native
            (build empty_request
               [Limit 5, Rerank MyCustomReranker, Vector [0.1, 0.1], FullTextSearch ''dog''])
          = Inl (ValidationError m)) \<and>
   \<not> (\<exists>m. execute test_native
            (build empty_request
               [FullTextSearch ''dog'', Vector [0.1, 0.1], Rerank MyCustomReranker, Limit 5])
          = Inl (ValidationError m)) \<and>
   (\<exists>m. execute test_native (build empty_request [Rerank MyCustomReranker, Limit 5])
          = Inl (ValidationError m)) \<and>
   (\<exists>m. execute test_native (build empty_request [Limit 0, Vector [0.1, 0.1]])
          = Inl (ValidationError m))"
  using
    validation_at_execute
      [of test_native "build empty_request [Rerank MyCustomReranker, Limit 5]"
          "[Limit 5, Rerank MyCustomReranker, Vector [0.1, 0.1], FullTextSearch ''dog'']"
          empty_request]
    validation_at_execute
      [of test_native "build empty_request [Limit 0, Vector [0.1, 0.1]]"
          "[FullTextSearch ''dog'', Vector [0.1, 0.1], Rerank MyCustomReranker, Limit 5]"
          empty_request]
  by (simp add: build_def empty_request_def)

end
